theory Spec2Isabelle
  imports Main
begin

section \<open>Text helpers of the host language\<close>

text \<open>
  \<^verbatim>\<open>str.lower()\<close> on the operation keyword. Strings are byte lists here; the letters
  \<open>A\<close> .. \<open>Z\<close> are mapped to \<open>a\<close> .. \<open>z\<close> and every other byte is kept. The keywords the
  result is compared with are plain ASCII, which no non-ASCII letter lowers to.
\<close>

definition lower_char :: "char \<Rightarrow> char" where
  "lower_char c =
     (let n = (of_char c :: nat) in if 65 \<le> n \<and> n \<le> 90 then char_of (n + 32) else c)"

definition lower :: "string \<Rightarrow> string" where
  "lower s = map lower_char s"

text \<open>Decimal text of an integer, as an f-string prints it.\<close>

definition digit :: "nat \<Rightarrow> char" where
  "digit n = char_of (48 + n)"

fun str_nat :: "nat \<Rightarrow> string" where
  "str_nat n = (if n < 10 then [digit n] else str_nat (n div 10) @ [digit (n mod 10)])"

declare str_nat.simps [simp del]

definition str_int :: "int \<Rightarrow> string" where
  "str_int i = (if i < 0 then CHR ''-'' # str_nat (nat (- i)) else str_nat (nat i))"

text \<open>The test \<^verbatim>\<open>p in s\<close> on strings: \<open>p\<close> occurs in \<open>s\<close> as a contiguous piece.\<close>

fun starts_with :: "string \<Rightarrow> string \<Rightarrow> bool" where
  "starts_with [] s = True"
| "starts_with (p # ps) [] = False"
| "starts_with (p # ps) (c # cs) = (p = c \<and> starts_with ps cs)"

fun str_in :: "string \<Rightarrow> string \<Rightarrow> bool" where
  "str_in p [] = (p = [])"
| "str_in p (c # cs) = (starts_with p (c # cs) \<or> str_in p cs)"


section \<open>The record store\<close>

text \<open>
  The table \<^verbatim>\<open>inventory (id INTEGER PRIMARY KEY AUTOINCREMENT, name, quantity)\<close> that
  \<^verbatim>\<open>init_db\<close> creates. The rows are kept in the order in which the table is scanned, which
  for this table is the order of its key \<^verbatim>\<open>id\<close>; \<open>seq\<close> is the counter that
  \<^verbatim>\<open>AUTOINCREMENT\<close> keeps: the largest id the table has ever handed out.
\<close>

type_synonym row = "int \<times> string \<times> int"

record db =
  rows :: "row list"
  seq :: int

definition init_db :: db where
  "init_db = \<lparr>rows = [], seq = 0\<rparr>"

text \<open>The key invariant of the table: ids are unique and the scan meets them in increasing order.\<close>

definition wf_db :: "db \<Rightarrow> bool" where
  "wf_db d = sorted_wrt (<) (map fst (rows d))"

text \<open>\<^verbatim>\<open>SELECT * FROM inventory\<close>: the scan of the whole table.\<close>

definition fetch_inventory :: "db \<Rightarrow> row list" where
  "fetch_inventory d = rows d"

text \<open>
  The three statements \<^verbatim>\<open>manageInventory\<close> sends. An insert takes the next id, one above
  both the counter and every id in the table, and reports it as \<^verbatim>\<open>lastrowid\<close>; an update
  and a delete report the number of rows they matched as \<^verbatim>\<open>rowcount\<close>.
\<close>

definition next_rowid :: "db \<Rightarrow> int" where
  "next_rowid d = fold max (map fst (rows d)) (seq d) + 1"

definition sql_insert :: "string \<Rightarrow> int \<Rightarrow> db \<Rightarrow> db \<times> int" where
  "sql_insert n q d =
     (let i = next_rowid d in (\<lparr>rows = rows d @ [(i, n, q)], seq = i\<rparr>, i))"

definition sql_update :: "string \<Rightarrow> int \<Rightarrow> int \<Rightarrow> db \<Rightarrow> db \<times> nat" where
  "sql_update n q i d =
     (d\<lparr>rows := map (\<lambda>r. if fst r = i then (i, n, q) else r) (rows d)\<rparr>,
      length (filter (\<lambda>r. fst r = i) (rows d)))"

definition sql_delete :: "int \<Rightarrow> db \<Rightarrow> db \<times> nat" where
  "sql_delete i d =
     (d\<lparr>rows := filter (\<lambda>r. fst r \<noteq> i) (rows d)\<rparr>,
      length (filter (\<lambda>r. fst r = i) (rows d)))"

text \<open>
  What the store library may do besides answering: each call can raise, with a message.
  Which call raises is decided outside the program (a file that cannot be opened, a full
  disk, a lock, an integer outside the 64-bit range of the store), so it is an input of
  the model.
\<close>

record faults =
  connect_fault :: "string option"
  execute_fault :: "string option"
  commit_fault :: "string option"

definition no_fault :: faults where
  "no_fault = \<lparr>connect_fault = None, execute_fault = None, commit_fault = None\<rparr>"

text \<open>The calls made on the store, in order, so that what was attempted can be read off.\<close>

datatype stmt = Insert string int | Update string int int | Delete int

datatype event = Connect | Execute stmt | Commit | Close


section \<open>The inventory tool\<close>

text \<open>
  \<^verbatim>\<open>InventoryItemInput\<close>: the operation and three optional fields (\<^verbatim>\<open>None\<close> by default).
  The field \<^verbatim>\<open>id\<close> is called \<open>item_id\<close> here.
\<close>

record InventoryItemInput =
  operation :: string
  item_id :: "int option"
  name :: "string option"
  quantity :: "int option"

text \<open>\<^verbatim>\<open>not item.name\<close>: the name is \<^verbatim>\<open>None\<close> or the empty string.\<close>

definition no_name :: "InventoryItemInput \<Rightarrow> bool" where
  "no_name item = (case name item of None \<Rightarrow> True | Some n \<Rightarrow> n = [])"

text \<open>The texts the tool returns, each as its return statement builds it.\<close>

definition add_required :: string where
  "add_required = ''Error: Name and quantity are required for adding an item.''"

definition update_required :: string where
  "update_required = ''Error: ID, name, and quantity are required for updating an item.''"

definition delete_required :: string where
  "delete_required = ''Error: ID is required for deleting an item.''"

definition invalid_operation :: string where
  "invalid_operation =
     ''Error: Invalid operation. Use '' @ [CHR 0x27] @ ''add'' @ [CHR 0x27] @ '', '' @
     [CHR 0x27] @ ''update'' @ [CHR 0x27] @ '', or '' @ [CHR 0x27] @ ''delete'' @ [CHR 0x27] @ ''.''"

definition added :: "string \<Rightarrow> int \<Rightarrow> int \<Rightarrow> string" where
  "added n new_id q =
     ''Added '' @ n @ '' with ID '' @ str_int new_id @ '' and quantity '' @ str_int q @ ''.''"

definition updated :: "int \<Rightarrow> string \<Rightarrow> int \<Rightarrow> string" where
  "updated i n q =
     ''Updated item ID '' @ str_int i @ '' to '' @ n @ '' with quantity '' @ str_int q @ ''.''"

definition deleted :: "int \<Rightarrow> string" where
  "deleted i = ''Deleted item ID '' @ str_int i @ ''.''"

definition not_found :: "int \<Rightarrow> string" where
  "not_found i = ''Error: Item with ID '' @ str_int i @ '' not found.''"

text \<open>
  The body of the \<^verbatim>\<open>try\<close> block, one definition for each branch of its chain of tests.
  The result is \<open>Inr\<close> of the returned text or \<open>Inl\<close> of the message of a raised exception,
  then the contents of the store once the connection is closed (a change that was not
  committed is lost with the connection), then the calls made on the store.
\<close>

type_synonym outcome = "(string + string) \<times> db \<times> event list"

definition add_branch :: "faults \<Rightarrow> InventoryItemInput \<Rightarrow> db \<Rightarrow> outcome" where
  "add_branch env item d =
     (if no_name item \<or> quantity item = None then (Inr add_required, d, [])
      else
        (let n = the (name item); q = the (quantity item) in
         case execute_fault env of
           Some e \<Rightarrow> (Inl e, d, [Execute (Insert n q)])
         | None \<Rightarrow>
             (let (d', new_id) = sql_insert n q d in
              case commit_fault env of
                Some e \<Rightarrow> (Inl e, d, [Execute (Insert n q), Commit])
              | None \<Rightarrow> (Inr (added n new_id q), d', [Execute (Insert n q), Commit]))))"

definition update_branch :: "faults \<Rightarrow> InventoryItemInput \<Rightarrow> db \<Rightarrow> outcome" where
  "update_branch env item d =
     (if item_id item = None \<or> no_name item \<or> quantity item = None then
        (Inr update_required, d, [])
      else
        (let i = the (item_id item); n = the (name item); q = the (quantity item) in
         case execute_fault env of
           Some e \<Rightarrow> (Inl e, d, [Execute (Update n q i)])
         | None \<Rightarrow>
             (let (d', rowcount) = sql_update n q i d in
              if rowcount = 0 then (Inr (not_found i), d, [Execute (Update n q i)])
              else
                (case commit_fault env of
                   Some e \<Rightarrow> (Inl e, d, [Execute (Update n q i), Commit])
                 | None \<Rightarrow> (Inr (updated i n q), d', [Execute (Update n q i), Commit])))))"

definition delete_branch :: "faults \<Rightarrow> InventoryItemInput \<Rightarrow> db \<Rightarrow> outcome" where
  "delete_branch env item d =
     (if item_id item = None then (Inr delete_required, d, [])
      else
        (let i = the (item_id item) in
         case execute_fault env of
           Some e \<Rightarrow> (Inl e, d, [Execute (Delete i)])
         | None \<Rightarrow>
             (let (d', rowcount) = sql_delete i d in
              if rowcount = 0 then (Inr (not_found i), d, [Execute (Delete i)])
              else
                (case commit_fault env of
                   Some e \<Rightarrow> (Inl e, d, [Execute (Delete i), Commit])
                 | None \<Rightarrow> (Inr (deleted i), d', [Execute (Delete i), Commit])))))"

definition try_block :: "faults \<Rightarrow> string \<Rightarrow> InventoryItemInput \<Rightarrow> db \<Rightarrow> outcome" where
  "try_block env op item d =
     (if op = ''add'' then add_branch env item d
      else if op = ''update'' then update_branch env item d
      else if op = ''delete'' then delete_branch env item d
      else (Inr invalid_operation, d, []))"

text \<open>
  What a call of the tool ends with: a returned text, or an exception that leaves the
  function.
\<close>

datatype result = Returned string | Raised string

text \<open>
  \<^verbatim>\<open>manageInventory\<close>: the keyword is lowered and the connection opened before the
  \<^verbatim>\<open>try\<close>; \<^verbatim>\<open>except Exception\<close> turns an exception of the body into the text
  \<^verbatim>\<open>Error: \<close> followed by its message; \<^verbatim>\<open>finally\<close> closes the connection.
\<close>

definition manageInventory ::
  "faults \<Rightarrow> InventoryItemInput \<Rightarrow> db \<Rightarrow> result \<times> db \<times> event list" where
  "manageInventory env item d =
     (let op = lower (operation item) in
      case connect_fault env of
        Some e \<Rightarrow> (Raised e, d, [])
      | None \<Rightarrow>
          (case try_block env op item d of
             (Inr s, d', tr) \<Rightarrow> (Returned s, d', Connect # tr @ [Close])
           | (Inl e, d', tr) \<Rightarrow> (Returned (''Error: '' @ e), d', Connect # tr @ [Close])))"


section \<open>The report after the run\<close>

text \<open>
  \<^verbatim>\<open>HelpfulAgentOutput\<close> and the shape the agent is told to give its final answer:
  \<^verbatim>\<open>"response_type": "...", "inventory_data": "..."\<close>.
\<close>

record HelpfulAgentOutput =
  response_type :: string
  inventory_data :: string

definition final_text :: "HelpfulAgentOutput \<Rightarrow> string" where
  "final_text s =
     [CHR 0x22] @ ''response_type'' @ [CHR 0x22] @ '': '' @
     [CHR 0x22] @ response_type s @ [CHR 0x22] @ '', '' @
     [CHR 0x22] @ ''inventory_data'' @ [CHR 0x22] @ '': '' @
     [CHR 0x22] @ inventory_data s @ [CHR 0x22]"

text \<open>
  The condition under which \<^verbatim>\<open>main\<close> prints the inventory:
  \<^verbatim>\<open>result.final_output and "is inventory" in result.final_output\<close>.
\<close>

definition lists_inventory :: "string \<Rightarrow> bool" where
  "lists_inventory final_output = (final_output \<noteq> [] \<and> str_in ''is inventory'' final_output)"

definition row_line :: "row \<Rightarrow> string" where
  "row_line r =
     (case r of (i, n, q) \<Rightarrow>
        ''ID: '' @ str_int i @ '', Name: '' @ n @ '', Quantity: '' @ str_int q)"

text \<open>
  \<^verbatim>\<open>main\<close>, from the answer of the run on: the lines it prints, given the final output of
  the agent and the store as the run left it.
\<close>

definition main :: "string \<Rightarrow> string \<Rightarrow> db \<Rightarrow> string list" where
  "main kickOffMessage final_output d =
     (''RUN Initiated: '' @ kickOffMessage) # final_output #
     (if lists_inventory final_output then
        (CHR 0x0A # ''Current Inventory:'') # map row_line (fetch_inventory d)
      else [])"


section \<open>Sequences of calls\<close>

text \<open>
  The calls of the tool during the life of a store, one at a time, each on the store the
  previous call left: the results in order, and the store after the last call.
\<close>

fun run_calls :: "db \<Rightarrow> (faults \<times> InventoryItemInput) list \<Rightarrow> result list \<times> db" where
  "run_calls d [] = ([], d)"
| "run_calls d (c # cs) =
     (case manageInventory (fst c) (snd c) d of
        (r, d', tr) \<Rightarrow> (case run_calls d' cs of (rs, d'') \<Rightarrow> (r # rs, d'')))"


section \<open>Facts about the store\<close>

lemma fold_max_lower: "s \<le> fold max xs (s::int)"
  by (induction xs arbitrary: s) (auto intro: order_trans [OF max.cobounded2])

lemma fold_max_upper: "x \<in> set xs \<Longrightarrow> x \<le> fold max xs (s::int)"
proof (induction xs arbitrary: s)
  case Nil
  then show ?case by simp
next
  case (Cons y ys)
  show ?case
  proof (cases "x = y")
    case True
    have "y \<le> max y s" by simp
    also have "\<dots> \<le> fold max ys (max y s)" by (rule fold_max_lower)
    finally show ?thesis using True by simp
  next
    case False
    with Cons show ?thesis by simp
  qed
qed

lemma next_rowid_above_rows: "r \<in> set (rows d) \<Longrightarrow> fst r < next_rowid d"
  using fold_max_upper [of "fst r" "map fst (rows d)" "seq d"]
  by (simp add: next_rowid_def)

lemma next_rowid_above_seq: "seq d < next_rowid d"
  using fold_max_lower [of "seq d" "map fst (rows d)"]
  by (simp add: next_rowid_def)

lemma wf_init_db: "wf_db init_db"
  by (simp add: wf_db_def init_db_def)

lemma wf_sql_insert: "wf_db d \<Longrightarrow> wf_db (fst (sql_insert n q d))"
  by (auto simp: wf_db_def sql_insert_def Let_def sorted_wrt_append
           dest: next_rowid_above_rows)

lemma fst_update: "fst \<circ> (\<lambda>r. if fst r = i then (i, n, q) else r) = fst"
  by (auto simp: fun_eq_iff)

lemma wf_sql_update: "wf_db d \<Longrightarrow> wf_db (fst (sql_update n q i d))"
  by (simp add: wf_db_def sql_update_def fst_update)

lemma map_fst_delete:
  "map fst (filter (\<lambda>r. fst r \<noteq> i) rs) = filter (\<lambda>k. k \<noteq> i) (map fst rs)"
  by (induction rs) auto

lemma wf_sql_delete: "wf_db d \<Longrightarrow> wf_db (fst (sql_delete i d))"
  by (simp add: wf_db_def sql_delete_def map_fst_delete sorted_wrt_filter)

text \<open>The store a call leaves is the old one or the outcome of exactly one statement.\<close>

lemma add_branch_db:
  "fst (snd (add_branch env item d)) = d \<or>
   fst (snd (add_branch env item d)) = fst (sql_insert (the (name item)) (the (quantity item)) d)"
  by (simp add: add_branch_def Let_def split: option.splits prod.splits)

lemma update_branch_db:
  "fst (snd (update_branch env item d)) = d \<or>
   fst (snd (update_branch env item d)) =
     fst (sql_update (the (name item)) (the (quantity item)) (the (item_id item)) d)"
  by (simp add: update_branch_def Let_def split: option.splits prod.splits)

lemma delete_branch_db:
  "fst (snd (delete_branch env item d)) = d \<or>
   fst (snd (delete_branch env item d)) = fst (sql_delete (the (item_id item)) d)"
  by (simp add: delete_branch_def Let_def split: option.splits prod.splits)

lemma manageInventory_db:
  "fst (snd (manageInventory env item d)) =
     (case connect_fault env of
        Some e \<Rightarrow> d
      | None \<Rightarrow> fst (snd (try_block env (lower (operation item)) item d)))"
  by (simp add: manageInventory_def Let_def split: option.splits prod.splits sum.splits)

lemma wf_add_branch: "wf_db d \<Longrightarrow> wf_db (fst (snd (add_branch env item d)))"
  using add_branch_db [of env item d] by (auto simp: wf_sql_insert)

lemma wf_update_branch: "wf_db d \<Longrightarrow> wf_db (fst (snd (update_branch env item d)))"
  using update_branch_db [of env item d] by (auto simp: wf_sql_update)

lemma wf_delete_branch: "wf_db d \<Longrightarrow> wf_db (fst (snd (delete_branch env item d)))"
  using delete_branch_db [of env item d] by (auto simp: wf_sql_delete)

lemma wf_try_block: "wf_db d \<Longrightarrow> wf_db (fst (snd (try_block env op item d)))"
  by (simp add: try_block_def wf_add_branch wf_update_branch wf_delete_branch)

lemma wf_manageInventory: "wf_db d \<Longrightarrow> wf_db (fst (snd (manageInventory env item d)))"
  by (simp add: manageInventory_db wf_try_block split: option.splits)

lemma wf_run_calls: "wf_db d \<Longrightarrow> wf_db (snd (run_calls d cs))"
proof (induction cs arbitrary: d)
  case Nil
  then show ?case by simp
next
  case (Cons c cs)
  from Cons.prems have "wf_db (fst (snd (manageInventory (fst c) (snd c) d)))"
    by (rule wf_manageInventory)
  then have "wf_db (snd (run_calls (fst (snd (manageInventory (fst c) (snd c) d))) cs))"
    by (rule Cons.IH)
  then show ?case by (auto split: prod.splits)
qed

section \<open>The decision to list the inventory\<close>

lemma starts_with_iff: "starts_with p s \<longleftrightarrow> (\<exists>suf. s = p @ suf)"
  by (induction p s rule: starts_with.induct) auto

lemma str_in_iff: "str_in p s \<longleftrightarrow> (\<exists>pre suf. s = pre @ p @ suf)"
proof (induction s)
  case Nil
  show ?case by simp
next
  case (Cons c cs)
  have "(\<exists>pre suf. c # cs = pre @ p @ suf) \<longleftrightarrow>
        (\<exists>suf. c # cs = p @ suf) \<or> (\<exists>pre suf. cs = pre @ p @ suf)"
  proof
    assume "\<exists>pre suf. c # cs = pre @ p @ suf"
    then obtain pre suf where e: "c # cs = pre @ p @ suf" by blast
    show "(\<exists>suf. c # cs = p @ suf) \<or> (\<exists>pre suf. cs = pre @ p @ suf)"
    proof (cases pre)
      case Nil
      with e show ?thesis by auto
    next
      case (Cons a pre')
      with e have "cs = pre' @ p @ suf" by simp
      then show ?thesis by blast
    qed
  next
    assume "(\<exists>suf. c # cs = p @ suf) \<or> (\<exists>pre suf. cs = pre @ p @ suf)"
    then show "\<exists>pre suf. c # cs = pre @ p @ suf"
    proof
      assume "\<exists>suf. c # cs = p @ suf"
      then obtain suf where "c # cs = [] @ p @ suf" by auto
      then show ?thesis by blast
    next
      assume "\<exists>pre suf. cs = pre @ p @ suf"
      then obtain pre suf where "c # cs = (c # pre) @ p @ suf" by auto
      then show ?thesis by blast
    qed
  qed
  with Cons show ?case by (simp add: starts_with_iff)
qed

text \<open>
  Claim C5, as the code has it. The decision is taken on the text of the final output, not
  on a classification field: it is true exactly when that text contains the phrase
  \<^verbatim>\<open>is inventory\<close>. Hence it is true for every summary whose classification is
  \<^verbatim>\<open>is inventory\<close>; the converse is not promised.
\<close>

theorem lists_inventory_substring:
  "(lists_inventory out \<longleftrightarrow> (\<exists>pre suf. out = pre @ ''is inventory'' @ suf)) \<and>
   lists_inventory (final_text \<lparr>response_type = ''is inventory'', inventory_data = x\<rparr>)"
proof
  show "lists_inventory out \<longleftrightarrow> (\<exists>pre suf. out = pre @ ''is inventory'' @ suf)"
    by (auto simp: lists_inventory_def str_in_iff)
next
  let ?q = "[CHR 0x22]"
  have "final_text \<lparr>response_type = ''is inventory'', inventory_data = x\<rparr> =
        (?q @ ''response_type'' @ ?q @ '': '' @ ?q) @ ''is inventory'' @
        (?q @ '', '' @ ?q @ ''inventory_data'' @ ?q @ '': '' @ ?q @ x @ ?q)"
    by (simp add: final_text_def)
  then have "str_in ''is inventory'' (final_text \<lparr>response_type = ''is inventory'', inventory_data = x\<rparr>)"
    unfolding str_in_iff by blast
  moreover have "final_text \<lparr>response_type = ''is inventory'', inventory_data = x\<rparr> \<noteq> []"
    by (simp add: final_text_def)
  ultimately show "lists_inventory (final_text \<lparr>response_type = ''is inventory'', inventory_data = x\<rparr>)"
    by (simp add: lists_inventory_def)
qed

text \<open>The statement of C5 at a concrete output.\<close>

theorem lists_inventory_substring_witness:
  "lists_inventory ''is inventory'' \<and>
   lists_inventory (final_text \<lparr>response_type = ''is inventory'', inventory_data = ''Added Bolt''\<rparr>)"
proof -
  have "\<exists>pre suf. ''is inventory'' = pre @ ''is inventory'' @ suf"
    by (rule exI [of _ "[]"], rule exI [of _ "[]"]) simp
  with lists_inventory_substring [of "''is inventory''" "''Added Bolt''"] show ?thesis
    by blast
qed

text \<open>
  Claim C5 as stated fails: a summary classified \<^verbatim>\<open>not inventory\<close> whose free text
  happens to contain the phrase is listed all the same.
\<close>

theorem classifier_tag_counterexample:
  "lists_inventory (final_text \<lparr>response_type = ''not inventory'',
      inventory_data = ''nothing here is inventory data''\<rparr>) \<and>
   response_type \<lparr>response_type = ''not inventory'',
      inventory_data = ''nothing here is inventory data''\<rparr> \<noteq> ''is inventory''"
  by code_simp


section \<open>The listing\<close>

text \<open>
  Claim C6. Take any store that satisfies the key invariant of the table (the new store of
  \<^verbatim>\<open>init_db\<close> is one) and let any calls of the tool run on it, with or without faults.
  When the final output makes \<^verbatim>\<open>main\<close> list the inventory, the lines printed after the
  heading are the rows that \<^verbatim>\<open>fetch_inventory\<close> returns, one line for each row of the
  table and in the same order, and their ids are strictly increasing.
\<close>

theorem listing_in_id_order:
  assumes "wf_db d0" and "lists_inventory out"
  shows "main k out (snd (run_calls d0 cs)) =
           (''RUN Initiated: '' @ k) # out # (CHR 0x0A # ''Current Inventory:'') #
           map row_line (rows (snd (run_calls d0 cs))) \<and>
         fetch_inventory (snd (run_calls d0 cs)) = rows (snd (run_calls d0 cs)) \<and>
         sorted_wrt (<) (map fst (fetch_inventory (snd (run_calls d0 cs))))"
  using assms wf_run_calls [of d0 cs]
  by (simp add: main_def fetch_inventory_def wf_db_def)

text \<open>C6 on a new store after three additions and a deletion.\<close>

theorem listing_in_id_order_witness:
  "wf_db init_db \<and> lists_inventory ''is inventory'' \<and>
   main ''add'' ''is inventory''
     (snd (run_calls init_db
        [(no_fault, \<lparr>operation = ''add'', item_id = None, name = Some ''Bolt'', quantity = Some 10\<rparr>),
         (no_fault, \<lparr>operation = ''add'', item_id = None, name = Some ''Nut'', quantity = Some 4\<rparr>),
         (no_fault, \<lparr>operation = ''delete'', item_id = Some 1, name = None, quantity = None\<rparr>),
         (no_fault, \<lparr>operation = ''add'', item_id = None, name = Some ''Cog'', quantity = Some 7\<rparr>)])) =
     [''RUN Initiated: add'', ''is inventory'', CHR 0x0A # ''Current Inventory:'',
      ''ID: 2, Name: Nut, Quantity: 4'', ''ID: 3, Name: Cog, Quantity: 7'']"
proof -
  let ?cs = "[(no_fault, \<lparr>operation = ''add'', item_id = None, name = Some ''Bolt'', quantity = Some 10\<rparr>),
         (no_fault, \<lparr>operation = ''add'', item_id = None, name = Some ''Nut'', quantity = Some 4\<rparr>),
         (no_fault, \<lparr>operation = ''delete'', item_id = Some 1, name = None, quantity = None\<rparr>),
         (no_fault, \<lparr>operation = ''add'', item_id = None, name = Some ''Cog'', quantity = Some 7\<rparr>)]"
  have a: "wf_db init_db" by code_simp
  have b: "lists_inventory ''is inventory''" by code_simp
  have c: "map row_line (rows (snd (run_calls init_db ?cs))) =
           [''ID: 2, Name: Nut, Quantity: 4'', ''ID: 3, Name: Cog, Quantity: 7'']"
    by code_simp
  from listing_in_id_order [OF a b, of "''add''" ?cs] c a b show ?thesis
    by simp
qed


section \<open>Facts about the tool\<close>

lemma manageInventory_connected:
  "connect_fault env = None \<Longrightarrow>
   manageInventory env item d =
     (case try_block env (lower (operation item)) item d of
        (Inr s, d', tr) \<Rightarrow> (Returned s, d', Connect # tr @ [Close])
      | (Inl e, d', tr) \<Rightarrow> (Returned (''Error: '' @ e), d', Connect # tr @ [Close]))"
  by (simp add: manageInventory_def)

lemma manageInventory_not_connected:
  "connect_fault env = Some e \<Longrightarrow> manageInventory env item d = (Raised e, d, [])"
  by (simp add: manageInventory_def)

lemma try_block_add: "try_block env ''add'' item d = add_branch env item d"
  by (simp add: try_block_def)

lemma try_block_update: "try_block env ''update'' item d = update_branch env item d"
  by (simp add: try_block_def)

lemma try_block_delete: "try_block env ''delete'' item d = delete_branch env item d"
  by (simp add: try_block_def)

lemma add_branch_missing:
  "no_name item \<or> quantity item = None \<Longrightarrow> add_branch env item d = (Inr add_required, d, [])"
  by (simp add: add_branch_def)

lemma update_branch_missing:
  "item_id item = None \<or> no_name item \<or> quantity item = None \<Longrightarrow>
   update_branch env item d = (Inr update_required, d, [])"
  by (simp add: update_branch_def)

lemma delete_branch_missing:
  "item_id item = None \<Longrightarrow> delete_branch env item d = (Inr delete_required, d, [])"
  by (simp add: delete_branch_def)

text \<open>
  Claim C1, as the code has it. Once the connection is open, a request whose lowered
  operation is \<^verbatim>\<open>add\<close>, \<^verbatim>\<open>update\<close> or \<^verbatim>\<open>delete\<close> and that lacks a field its operation
  needs (a name that is absent or empty, a quantity or an id that is absent) is answered with
  the one fixed text of that operation, which lists all the fields the operation needs. The
  store is left as it was, and between opening and closing the connection no statement and
  no commit is sent.
\<close>

theorem missing_fields_rejected:
  assumes "connect_fault env = None"
  shows "(lower (operation item) = ''add'' \<and> (no_name item \<or> quantity item = None) \<longrightarrow>
            manageInventory env item d =
              (Returned ''Error: Name and quantity are required for adding an item.'', d,
               [Connect, Close])) \<and>
         (lower (operation item) = ''update'' \<and>
            (item_id item = None \<or> no_name item \<or> quantity item = None) \<longrightarrow>
            manageInventory env item d =
              (Returned ''Error: ID, name, and quantity are required for updating an item.'', d,
               [Connect, Close])) \<and>
         (lower (operation item) = ''delete'' \<and> item_id item = None \<longrightarrow>
            manageInventory env item d =
              (Returned ''Error: ID is required for deleting an item.'', d, [Connect, Close]))"
proof (intro conjI impI)
  assume "lower (operation item) = ''add'' \<and> (no_name item \<or> quantity item = None)"
  then show "manageInventory env item d =
      (Returned ''Error: Name and quantity are required for adding an item.'', d, [Connect, Close])"
    using assms
    by (simp add: manageInventory_connected try_block_add add_branch_missing add_required_def)
next
  assume "lower (operation item) = ''update'' \<and>
            (item_id item = None \<or> no_name item \<or> quantity item = None)"
  then show "manageInventory env item d =
      (Returned ''Error: ID, name, and quantity are required for updating an item.'', d,
       [Connect, Close])"
    using assms
    by (simp add: manageInventory_connected try_block_update update_branch_missing
        update_required_def)
next
  assume "lower (operation item) = ''delete'' \<and> item_id item = None"
  then show "manageInventory env item d =
      (Returned ''Error: ID is required for deleting an item.'', d, [Connect, Close])"
    using assms
    by (simp add: manageInventory_connected try_block_delete delete_branch_missing
        delete_required_def)
qed

text \<open>
  C1 at an update that lacks only its quantity.
\<close>

theorem missing_fields_rejected_witness:
  "connect_fault no_fault = None \<and>
   lower (operation \<lparr>operation = ''Update'', item_id = Some 1, name = Some ''Widget'',
      quantity = None\<rparr>) = ''update'' \<and>
   quantity \<lparr>operation = ''Update'', item_id = Some 1, name = Some ''Widget'',
      quantity = None\<rparr> = None \<and>
   manageInventory no_fault
     \<lparr>operation = ''Update'', item_id = Some 1, name = Some ''Widget'', quantity = None\<rparr> init_db =
     (Returned ''Error: ID, name, and quantity are required for updating an item.'', init_db,
      [Connect, Close])"
proof -
  let ?item = "\<lparr>operation = ''Update'', item_id = Some 1, name = Some ''Widget'',
      quantity = None\<rparr>"
  have a: "connect_fault no_fault = None" by (simp add: no_fault_def)
  have b: "lower (operation ?item) = ''update''" by code_simp
  have c: "quantity ?item = None" by simp
  from missing_fields_rejected [OF a, of ?item init_db] b c
  have "manageInventory no_fault ?item init_db =
     (Returned ''Error: ID, name, and quantity are required for updating an item.'', init_db,
      [Connect, Close])"
    by blast
  with a b c show ?thesis by blast
qed

text \<open>
  Claim C1 as stated fails: the text does not tell which fields were left out. An update
  that has its id and its name and lacks only the quantity is answered with a text that
  names the id and the name as well, and an update that lacks only the id gets the very
  same text.
\<close>

theorem missing_fields_named_counterexample:
  "item_id \<lparr>operation = ''update'', item_id = Some 1, name = Some ''Widget'',
      quantity = None\<rparr> = Some 1 \<and>
   \<not> no_name \<lparr>operation = ''update'', item_id = Some 1, name = Some ''Widget'',
      quantity = None\<rparr> \<and>
   fst (manageInventory no_fault
     \<lparr>operation = ''update'', item_id = Some 1, name = Some ''Widget'', quantity = None\<rparr>
     init_db) =
     Returned ''Error: ID, name, and quantity are required for updating an item.'' \<and>
   str_in ''ID'' ''Error: ID, name, and quantity are required for updating an item.'' \<and>
   str_in ''name'' ''Error: ID, name, and quantity are required for updating an item.'' \<and>
   fst (manageInventory no_fault
     \<lparr>operation = ''update'', item_id = None, name = Some ''Widget'', quantity = Some 5\<rparr>
     init_db) =
     Returned ''Error: ID, name, and quantity are required for updating an item.''"
  by code_simp

lemma no_name_Some: "name item = Some n \<Longrightarrow> no_name item \<longleftrightarrow> n = []"
  by (simp add: no_name_def)

lemma add_branch_ok:
  assumes "name item = Some n" "n \<noteq> []" "quantity item = Some q"
    and "execute_fault env = None" "commit_fault env = None"
  shows "add_branch env item d =
     (Inr (added n (next_rowid d) q), \<lparr>rows = rows d @ [(next_rowid d, n, q)], seq = next_rowid d\<rparr>,
      [Execute (Insert n q), Commit])"
  using assms by (simp add: add_branch_def no_name_Some sql_insert_def Let_def)

text \<open>
  Claim C2, as the code has it: the keyword of the insertion is \<^verbatim>\<open>add\<close>, in any mix of
  upper and lower case. For a request with that keyword, a name that is not empty and a
  quantity, and a store that raises nothing, the tool sends one insert and commits it. The
  table gains the row of the given name and quantity under the id the store assigns, which
  is above the counter and is the id of no row already there, and the returned text reports
  that id.
\<close>

theorem add_inserts_record:
  assumes "lower (operation item) = ''add''"
    and "name item = Some n" and "n \<noteq> []" and "quantity item = Some q"
    and "connect_fault env = None" and "execute_fault env = None" and "commit_fault env = None"
  shows "manageInventory env item d =
           (Returned (''Added '' @ n @ '' with ID '' @ str_int (next_rowid d) @
                      '' and quantity '' @ str_int q @ ''.''),
            \<lparr>rows = rows d @ [(next_rowid d, n, q)], seq = next_rowid d\<rparr>,
            [Connect, Execute (Insert n q), Commit, Close]) \<and>
         next_rowid d \<notin> fst ` set (rows d) \<and> seq d < next_rowid d"
proof (intro conjI)
  show "manageInventory env item d =
           (Returned (''Added '' @ n @ '' with ID '' @ str_int (next_rowid d) @
                      '' and quantity '' @ str_int q @ ''.''),
            \<lparr>rows = rows d @ [(next_rowid d, n, q)], seq = next_rowid d\<rparr>,
            [Connect, Execute (Insert n q), Commit, Close])"
    using assms
    by (simp add: manageInventory_connected try_block_add add_branch_ok added_def)
  show "next_rowid d \<notin> fst ` set (rows d)"
    using next_rowid_above_rows [of _ d] by fastforce
  show "seq d < next_rowid d"
    by (rule next_rowid_above_seq)
qed

text \<open>
  C2 on a new store, with the keyword in upper case.
\<close>

theorem add_inserts_record_witness:
  "lower (operation \<lparr>operation = ''ADD'', item_id = None, name = Some ''Bolt'',
      quantity = Some 10\<rparr>) = ''add'' \<and>
   manageInventory no_fault
     \<lparr>operation = ''ADD'', item_id = None, name = Some ''Bolt'', quantity = Some 10\<rparr> init_db =
     (Returned ''Added Bolt with ID 1 and quantity 10.'',
      \<lparr>rows = [(1, ''Bolt'', 10)], seq = 1\<rparr>,
      [Connect, Execute (Insert ''Bolt'' 10), Commit, Close])"
proof -
  let ?item = "\<lparr>operation = ''ADD'', item_id = None, name = Some ''Bolt'', quantity = Some 10\<rparr>"
  have a: "lower (operation ?item) = ''add''" by code_simp
  have b: "name ?item = Some ''Bolt''" "''Bolt'' \<noteq> []" "quantity ?item = Some 10" by simp_all
  have c: "connect_fault no_fault = None" "execute_fault no_fault = None"
    "commit_fault no_fault = None" by (simp_all add: no_fault_def)
  have n: "next_rowid init_db = 1" by code_simp
  have s1: "str_int 1 = ''1''" by code_simp
  have s2: "str_int 10 = ''10''" by code_simp
  have r: "rows init_db = []" by (simp add: init_db_def)
  from add_inserts_record [OF a b c, of init_db] a show ?thesis
    by (simp add: n s1 s2 r)
qed

text \<open>
  Claim C2 as stated fails: the keyword \<^verbatim>\<open>create\<close> is not one the tool knows. A request
  with that keyword and with a name and a quantity is rejected as an invalid operation and
  nothing is inserted.
\<close>

theorem create_keyword_counterexample:
  "manageInventory no_fault
     \<lparr>operation = ''create'', item_id = None, name = Some ''Widget'', quantity = Some 5\<rparr> init_db =
     (Returned (''Error: Invalid operation. Use '' @ [CHR 0x27] @ ''add'' @ [CHR 0x27] @ '', '' @
        [CHR 0x27] @ ''update'' @ [CHR 0x27] @ '', or '' @ [CHR 0x27] @ ''delete'' @ [CHR 0x27] @
        ''.''),
      init_db, [Connect, Close])"
  by code_simp

lemma absent_no_match: "i \<notin> fst ` set rs \<Longrightarrow> filter (\<lambda>r. fst r = i) rs = []"
  by (auto simp: filter_empty_conv)

lemma update_branch_absent:
  assumes "item_id item = Some i" and "\<not> no_name item" and "quantity item \<noteq> None"
    and "i \<notin> fst ` set (rows d)" and "execute_fault env = None"
  shows "update_branch env item d =
     (Inr (not_found i), d, [Execute (Update (the (name item)) (the (quantity item)) i)])"
  using assms by (simp add: update_branch_def sql_update_def Let_def absent_no_match)

lemma delete_branch_absent:
  assumes "item_id item = Some i" and "i \<notin> fst ` set (rows d)" and "execute_fault env = None"
  shows "delete_branch env item d = (Inr (not_found i), d, [Execute (Delete i)])"
  using assms by (simp add: delete_branch_def sql_delete_def Let_def absent_no_match)

lemma update_branch_absent_db:
  "item_id item = Some i \<Longrightarrow> i \<notin> fst ` set (rows d) \<Longrightarrow>
   fst (snd (update_branch env item d)) = d"
  by (simp add: update_branch_def sql_update_def Let_def absent_no_match split: option.splits)

lemma delete_branch_absent_db:
  "item_id item = Some i \<Longrightarrow> i \<notin> fst ` set (rows d) \<Longrightarrow>
   fst (snd (delete_branch env item d)) = d"
  by (simp add: delete_branch_def sql_delete_def Let_def absent_no_match split: option.splits)

text \<open>
  Claim C3. An update with a name and a quantity, or a delete, whose id is the id of no row:
  the store is the same after the call whatever the store library does, and when the
  connection opens and the statement runs without raising, the returned text says that the
  item with this id was not found and no commit is sent.
\<close>

theorem absent_id_not_found:
  assumes "item_id item = Some i" and "i \<notin> fst ` set (rows d)"
    and "lower (operation item) = ''delete'' \<or>
         lower (operation item) = ''update'' \<and> \<not> no_name item \<and> quantity item \<noteq> None"
  shows "fst (snd (manageInventory env item d)) = d \<and>
         (connect_fault env = None \<and> execute_fault env = None \<longrightarrow>
            fst (manageInventory env item d) =
              Returned (''Error: Item with ID '' @ str_int i @ '' not found.'') \<and>
            Commit \<notin> set (snd (snd (manageInventory env item d))))"
proof (intro conjI impI)
  show "fst (snd (manageInventory env item d)) = d"
    using assms
    by (auto simp: manageInventory_db try_block_update try_block_delete
        update_branch_absent_db delete_branch_absent_db split: option.splits)
next
  assume ok: "connect_fault env = None \<and> execute_fault env = None"
  from assms(3) show "fst (manageInventory env item d) =
      Returned (''Error: Item with ID '' @ str_int i @ '' not found.'')"
  proof
    assume "lower (operation item) = ''delete''"
    with ok assms(1,2) show ?thesis
      by (simp add: manageInventory_connected try_block_delete delete_branch_absent not_found_def)
  next
    assume "lower (operation item) = ''update'' \<and> \<not> no_name item \<and> quantity item \<noteq> None"
    with ok assms(1,2) show ?thesis
      by (simp add: manageInventory_connected try_block_update update_branch_absent not_found_def)
  qed
  from assms(3) show "Commit \<notin> set (snd (snd (manageInventory env item d)))"
  proof
    assume "lower (operation item) = ''delete''"
    with ok assms(1,2) show ?thesis
      by (simp add: manageInventory_connected try_block_delete delete_branch_absent)
  next
    assume "lower (operation item) = ''update'' \<and> \<not> no_name item \<and> quantity item \<noteq> None"
    with ok assms(1,2) show ?thesis
      by (simp add: manageInventory_connected try_block_update update_branch_absent)
  qed
qed

text \<open>
  C3 at the deletion of item 2 from a new store.
\<close>

theorem absent_id_not_found_witness:
  "item_id \<lparr>operation = ''delete'', item_id = Some 2, name = None, quantity = None\<rparr> = Some 2 \<and>
   2 \<notin> fst ` set (rows init_db) \<and>
   lower (operation \<lparr>operation = ''delete'', item_id = Some 2, name = None, quantity = None\<rparr>) =
     ''delete'' \<and>
   connect_fault no_fault = None \<and> execute_fault no_fault = None \<and>
   fst (snd (manageInventory no_fault
     \<lparr>operation = ''delete'', item_id = Some 2, name = None, quantity = None\<rparr> init_db)) = init_db \<and>
   fst (manageInventory no_fault
     \<lparr>operation = ''delete'', item_id = Some 2, name = None, quantity = None\<rparr> init_db) =
     Returned ''Error: Item with ID 2 not found.''"
proof -
  let ?item = "\<lparr>operation = ''delete'', item_id = Some 2, name = None, quantity = None\<rparr>"
  have a: "item_id ?item = Some 2" by simp
  have b: "2 \<notin> fst ` set (rows init_db)" by (simp add: init_db_def)
  have c: "lower (operation ?item) = ''delete''" by code_simp
  have e: "connect_fault no_fault = None" "execute_fault no_fault = None"
    by (simp_all add: no_fault_def)
  have s: "str_int 2 = ''2''" by code_simp
  from c have c': "lower (operation ?item) = ''delete'' \<or>
      lower (operation ?item) = ''update'' \<and> \<not> no_name ?item \<and> quantity ?item \<noteq> None" ..
  from absent_id_not_found [OF a b c', of no_fault] e
  have "fst (snd (manageInventory no_fault ?item init_db)) = init_db \<and>
        fst (manageInventory no_fault ?item init_db) =
          Returned (''Error: Item with ID '' @ str_int 2 @ '' not found.'')"
    by blast
  with a b c e show ?thesis by (simp add: s)
qed


section \<open>Faults of the store\<close>

lemma add_branch_fault:
  assumes "add_branch env item d = (x, d', tr)"
    and "execute_fault env = Some m \<and> (\<exists>s. Execute s \<in> set tr) \<or>
         execute_fault env = None \<and> commit_fault env = Some m \<and> Commit \<in> set tr"
  shows "x = Inl m \<and> d' = d"
  using assms
  by (auto simp: add_branch_def Let_def split: if_splits option.splits prod.splits)

lemma update_branch_fault:
  assumes "update_branch env item d = (x, d', tr)"
    and "execute_fault env = Some m \<and> (\<exists>s. Execute s \<in> set tr) \<or>
         execute_fault env = None \<and> commit_fault env = Some m \<and> Commit \<in> set tr"
  shows "x = Inl m \<and> d' = d"
  using assms
  by (auto simp: update_branch_def Let_def split: if_splits option.splits prod.splits)

lemma delete_branch_fault:
  assumes "delete_branch env item d = (x, d', tr)"
    and "execute_fault env = Some m \<and> (\<exists>s. Execute s \<in> set tr) \<or>
         execute_fault env = None \<and> commit_fault env = Some m \<and> Commit \<in> set tr"
  shows "x = Inl m \<and> d' = d"
  using assms
  by (auto simp: delete_branch_def Let_def split: if_splits option.splits prod.splits)

lemma try_block_fault:
  assumes "try_block env op item d = (x, d', tr)"
    and "execute_fault env = Some m \<and> (\<exists>s. Execute s \<in> set tr) \<or>
         execute_fault env = None \<and> commit_fault env = Some m \<and> Commit \<in> set tr"
  shows "x = Inl m \<and> d' = d"
proof -
  consider "op = ''add''" | "op \<noteq> ''add''" "op = ''update''"
    | "op \<noteq> ''add''" "op \<noteq> ''update''" "op = ''delete''"
    | "op \<noteq> ''add''" "op \<noteq> ''update''" "op \<noteq> ''delete''"
    by blast
  then show ?thesis
  proof cases
    case 1
    with assms(1) have "add_branch env item d = (x, d', tr)" by (simp add: try_block_def)
    then show ?thesis using assms(2) by (rule add_branch_fault)
  next
    case 2
    with assms(1) have "update_branch env item d = (x, d', tr)" by (simp add: try_block_def)
    then show ?thesis using assms(2) by (rule update_branch_fault)
  next
    case 3
    with assms(1) have "delete_branch env item d = (x, d', tr)" by (simp add: try_block_def)
    then show ?thesis using assms(2) by (rule delete_branch_fault)
  next
    case 4
    with assms(1) have "tr = []" by (simp add: try_block_def)
    with assms(2) show ?thesis by simp
  qed
qed

text \<open>
  A fault while the change is under way: either a statement was sent and sending it raises
  \<open>m\<close>, or the statement went through, the commit was sent and the commit raises \<open>m\<close>.
\<close>

lemma fault_in_transaction:
  assumes "manageInventory env item d = (r, d', tr)"
    and "execute_fault env = Some m \<and> (\<exists>s. Execute s \<in> set tr) \<or>
         execute_fault env = None \<and> commit_fault env = Some m \<and> Commit \<in> set tr"
  shows "r = Returned (''Error: '' @ m) \<and> d' = d \<and> hd tr = Connect \<and> last tr = Close"
proof (cases "connect_fault env")
  case (Some e)
  with assms(1) have "tr = []" by (simp add: manageInventory_not_connected)
  with assms(2) show ?thesis by simp
next
  case None
  obtain x d1 t1 where tb: "try_block env (lower (operation item)) item d = (x, d1, t1)"
    by (cases "try_block env (lower (operation item)) item d") auto
  from None tb assms(1) have tr: "tr = Connect # t1 @ [Close]" and d': "d' = d1"
    by (auto simp: manageInventory_connected split: sum.splits)
  from assms(2) tr
  have "execute_fault env = Some m \<and> (\<exists>s. Execute s \<in> set t1) \<or>
        execute_fault env = None \<and> commit_fault env = Some m \<and> Commit \<in> set t1"
    by auto
  with tb have x: "x = Inl m \<and> d1 = d" by (rule try_block_fault)
  with None tb assms(1) have "r = Returned (''Error: '' @ m)"
    by (simp add: manageInventory_connected)
  with x d' tr show ?thesis by simp
qed

text \<open>
  Claim C4, as the code has it. When the store library raises while a statement is sent or
  while the change is committed, the tool returns the text \<^verbatim>\<open>Error: \<close> followed by the
  message instead of letting the exception leave, the store is the same as before the call,
  so nothing of the unfinished change survives, and the connection that was opened first is
  closed last. When the store library raises while the connection is opened, which is done
  before the \<^verbatim>\<open>try\<close>, the exception leaves the tool; the store is untouched and there is
  no connection to close.
\<close>

theorem store_fault_caught:
  "(manageInventory env item d = (r, d', tr) \<and>
      (execute_fault env = Some m \<and> (\<exists>s. Execute s \<in> set tr) \<or>
       execute_fault env = None \<and> commit_fault env = Some m \<and> Commit \<in> set tr) \<longrightarrow>
      r = Returned (''Error: '' @ m) \<and> d' = d \<and> hd tr = Connect \<and> last tr = Close) \<and>
   (connect_fault env = Some e \<longrightarrow> manageInventory env item d = (Raised e, d, []))"
  using fault_in_transaction [of env item d r d' tr m]
    manageInventory_not_connected [of env e item d]
  by blast

text \<open>
  C4 at an addition whose commit fails.
\<close>

theorem store_fault_caught_witness:
  "manageInventory
     \<lparr>connect_fault = None, execute_fault = None, commit_fault = Some ''disk I/O error''\<rparr>
     \<lparr>operation = ''add'', item_id = None, name = Some ''Bolt'', quantity = Some 10\<rparr> init_db =
     (Returned ''Error: disk I/O error'', init_db,
      [Connect, Execute (Insert ''Bolt'' 10), Commit, Close]) \<and>
   commit_fault
     \<lparr>connect_fault = None, execute_fault = None, commit_fault = Some ''disk I/O error''\<rparr> =
     Some ''disk I/O error'' \<and>
   Commit \<in> set [Connect, Execute (Insert ''Bolt'' 10), Commit, Close]"
proof -
  let ?env = "\<lparr>connect_fault = None, execute_fault = None,
      commit_fault = Some ''disk I/O error''\<rparr>"
  let ?item = "\<lparr>operation = ''add'', item_id = None, name = Some ''Bolt'', quantity = Some 10\<rparr>"
  let ?tr = "[Connect, Execute (Insert ''Bolt'' 10), Commit, Close]"
  have tr: "snd (snd (manageInventory ?env ?item init_db)) = ?tr"
    by code_simp
  have run: "manageInventory ?env ?item init_db =
      (fst (manageInventory ?env ?item init_db), fst (snd (manageInventory ?env ?item init_db)),
       ?tr)"
    by (simp add: tr [symmetric])
  have f: "execute_fault ?env = Some ''disk I/O error'' \<and> (\<exists>s. Execute s \<in> set ?tr) \<or>
      execute_fault ?env = None \<and> commit_fault ?env = Some ''disk I/O error'' \<and>
        Commit \<in> set ?tr"
    by simp
  from store_fault_caught [where env = ?env and item = ?item and d = init_db
      and r = "fst (manageInventory ?env ?item init_db)"
      and d' = "fst (snd (manageInventory ?env ?item init_db))"
      and tr = ?tr and m = "''disk I/O error''"] run f
  have "fst (manageInventory ?env ?item init_db) = Returned (''Error: '' @ ''disk I/O error'') \<and>
        fst (snd (manageInventory ?env ?item init_db)) = init_db"
    by blast
  with run show ?thesis by simp
qed

text \<open>
  Claim C4 as stated fails: a store that cannot be opened is a fault of the store during
  the operation, and the exception it raises leaves the tool instead of coming back as a
  text.
\<close>

theorem store_fault_at_connect_counterexample:
  "manageInventory
     \<lparr>connect_fault = Some ''unable to open database file'', execute_fault = None,
      commit_fault = None\<rparr>
     \<lparr>operation = ''add'', item_id = None, name = Some ''Bolt'', quantity = Some 10\<rparr> init_db =
     (Raised ''unable to open database file'', init_db, [])"
  by code_simp

text \<open>
  Every request that passes the tests of its branch does send a statement once the
  connection is open, so each such request can meet a fault of either kind.
\<close>

lemma statement_sent:
  assumes "connect_fault env = None"
    and "lower (operation item) = ''add'' \<and> \<not> no_name item \<and> quantity item \<noteq> None \<or>
         lower (operation item) = ''update'' \<and> item_id item \<noteq> None \<and> \<not> no_name item \<and>
           quantity item \<noteq> None \<or>
         lower (operation item) = ''delete'' \<and> item_id item \<noteq> None"
  shows "\<exists>s. Execute s \<in> set (snd (snd (manageInventory env item d)))"
proof -
  from assms(2) consider
      (a) "lower (operation item) = ''add''" "\<not> no_name item" "quantity item \<noteq> None"
    | (u) "lower (operation item) = ''update''" "item_id item \<noteq> None" "\<not> no_name item"
          "quantity item \<noteq> None"
    | (dl) "lower (operation item) = ''delete''" "item_id item \<noteq> None"
    by blast
  then show ?thesis
  proof cases
    case a
    then have "\<exists>s. Execute s \<in> set (snd (snd (add_branch env item d)))"
      by (simp add: add_branch_def Let_def split: option.splits prod.splits)
    with a assms(1) show ?thesis
      by (auto simp: manageInventory_connected try_block_add split: prod.splits sum.splits)
  next
    case u
    then have "\<exists>s. Execute s \<in> set (snd (snd (update_branch env item d)))"
      by (simp add: update_branch_def Let_def split: option.splits prod.splits)
    with u assms(1) show ?thesis
      by (auto simp: manageInventory_connected try_block_update split: prod.splits sum.splits)
  next
    case dl
    then have "\<exists>s. Execute s \<in> set (snd (snd (delete_branch env item d)))"
      by (simp add: delete_branch_def Let_def split: option.splits prod.splits)
    with dl assms(1) show ?thesis
      by (auto simp: manageInventory_connected try_block_delete split: prod.splits sum.splits)
  qed
qed

section \<open>Every way out of the tool\<close>

lemma add_branch_trace:
  "Connect \<notin> set (snd (snd (add_branch env item d))) \<and>
   Close \<notin> set (snd (snd (add_branch env item d)))"
  by (simp add: add_branch_def Let_def split: option.splits prod.splits)

lemma update_branch_trace:
  "Connect \<notin> set (snd (snd (update_branch env item d))) \<and>
   Close \<notin> set (snd (snd (update_branch env item d)))"
  by (simp add: update_branch_def Let_def split: option.splits prod.splits)

lemma delete_branch_trace:
  "Connect \<notin> set (snd (snd (delete_branch env item d))) \<and>
   Close \<notin> set (snd (snd (delete_branch env item d)))"
  by (simp add: delete_branch_def Let_def split: option.splits prod.splits)

lemma try_block_trace:
  "Connect \<notin> set (snd (snd (try_block env op item d))) \<and>
   Close \<notin> set (snd (snd (try_block env op item d)))"
  by (simp add: try_block_def add_branch_trace update_branch_trace delete_branch_trace)

text \<open>
  Claim C9, as the code has it. Once the connection is open the tool always returns a text:
  an exception raised in the \<^verbatim>\<open>try\<close> block comes back as \<^verbatim>\<open>Error: \<close> followed by its
  message, and the connection is opened once, first, and closed once, last, whichever way
  the block is left. The connection is opened before the \<^verbatim>\<open>try\<close>, so an exception
  raised by opening it leaves the tool; then no connection exists and the store is untouched.
\<close>

theorem tool_returns_text_once_connected:
  "(connect_fault env = None \<longrightarrow>
      (\<exists>s d' tr. manageInventory env item d = (Returned s, d', Connect # tr @ [Close]) \<and>
         Connect \<notin> set tr \<and> Close \<notin> set tr \<and>
         (\<forall>e. fst (try_block env (lower (operation item)) item d) = Inl e \<longrightarrow>
            s = ''Error: '' @ e))) \<and>
   (\<forall>e. connect_fault env = Some e \<longrightarrow> manageInventory env item d = (Raised e, d, []))"
proof (intro conjI impI allI)
  assume c: "connect_fault env = None"
  obtain x d1 t1 where tb: "try_block env (lower (operation item)) item d = (x, d1, t1)"
    by (cases "try_block env (lower (operation item)) item d") auto
  from try_block_trace [of env "lower (operation item)" item d] tb
  have t1: "Connect \<notin> set t1 \<and> Close \<notin> set t1" by simp
  show "\<exists>s d' tr. manageInventory env item d = (Returned s, d', Connect # tr @ [Close]) \<and>
         Connect \<notin> set tr \<and> Close \<notin> set tr \<and>
         (\<forall>e. fst (try_block env (lower (operation item)) item d) = Inl e \<longrightarrow>
            s = ''Error: '' @ e)"
  proof (cases x)
    case (Inl e)
    with c tb have "manageInventory env item d =
        (Returned (''Error: '' @ e), d1, Connect # t1 @ [Close])"
      by (simp add: manageInventory_connected)
    with t1 tb Inl show ?thesis by auto
  next
    case (Inr s)
    with c tb have "manageInventory env item d = (Returned s, d1, Connect # t1 @ [Close])"
      by (simp add: manageInventory_connected)
    with t1 tb Inr show ?thesis by auto
  qed
next
  fix e
  assume "connect_fault env = Some e"
  then show "manageInventory env item d = (Raised e, d, [])"
    by (rule manageInventory_not_connected)
qed

text \<open>
  C9 at a deletion whose statement fails.
\<close>

theorem tool_returns_text_once_connected_witness:
  "connect_fault
     \<lparr>connect_fault = None, execute_fault = Some ''database is locked'', commit_fault = None\<rparr> =
     None \<and>
   manageInventory
     \<lparr>connect_fault = None, execute_fault = Some ''database is locked'', commit_fault = None\<rparr>
     \<lparr>operation = ''delete'', item_id = Some 2, name = None, quantity = None\<rparr> init_db =
     (Returned ''Error: database is locked'', init_db, [Connect, Execute (Delete 2), Close])"
proof -
  let ?env = "\<lparr>connect_fault = None, execute_fault = Some ''database is locked'',
      commit_fault = None\<rparr>"
  let ?item = "\<lparr>operation = ''delete'', item_id = Some 2, name = None, quantity = None\<rparr>"
  have c: "connect_fault ?env = None" by simp
  have tb: "try_block ?env (lower (operation ?item)) ?item init_db =
      (Inl ''database is locked'', init_db, [Execute (Delete 2)])"
    by code_simp
  from tool_returns_text_once_connected [of ?env ?item init_db] c
  obtain s d' tr where
    run: "manageInventory ?env ?item init_db = (Returned s, d', Connect # tr @ [Close])"
    and s: "\<forall>e. fst (try_block ?env (lower (operation ?item)) ?item init_db) = Inl e \<longrightarrow>
              s = ''Error: '' @ e"
    by blast
  from s tb have "s = ''Error: database is locked''" by simp
  moreover from run tb have "d' = init_db \<and> tr = [Execute (Delete 2)]"
    by (simp add: manageInventory_connected)
  ultimately show ?thesis using run c by simp
qed

text \<open>
  Claim C9 as stated fails: when the store cannot be opened, the exception leaves the tool
  and no text is returned.
\<close>

theorem connect_fault_counterexample:
  "fst (manageInventory
     \<lparr>connect_fault = Some ''unable to open database file'', execute_fault = None,
      commit_fault = None\<rparr>
     \<lparr>operation = ''delete'', item_id = Some 2, name = None, quantity = None\<rparr> init_db) =
   Raised ''unable to open database file''"
  by code_simp

section \<open>The records a call leaves alone\<close>

lemma others_after_update:
  "filter (\<lambda>r. fst r \<noteq> i) (map (\<lambda>r. if fst r = i then (i, n, q) else r) rs) =
   filter (\<lambda>r. fst r \<noteq> i) rs"
  by (induction rs) auto

lemma update_branch_others:
  "filter (\<lambda>r. Some (fst r) \<noteq> item_id item) (rows (fst (snd (update_branch env item d)))) =
   filter (\<lambda>r. Some (fst r) \<noteq> item_id item) (rows d) \<and>
   seq (fst (snd (update_branch env item d))) = seq d"
proof (cases "item_id item")
  case None
  then show ?thesis by (simp add: update_branch_def)
next
  case (Some i)
  from update_branch_db [of env item d] Some show ?thesis
    by (auto simp: sql_update_def others_after_update)
qed

lemma delete_branch_others:
  "filter (\<lambda>r. Some (fst r) \<noteq> item_id item) (rows (fst (snd (delete_branch env item d)))) =
   filter (\<lambda>r. Some (fst r) \<noteq> item_id item) (rows d) \<and>
   seq (fst (snd (delete_branch env item d))) = seq d"
proof (cases "item_id item")
  case None
  then show ?thesis by (simp add: delete_branch_def)
next
  case (Some i)
  from delete_branch_db [of env item d] Some show ?thesis
    by (auto simp: sql_delete_def)
qed

lemma one_row_per_id:
  "sorted_wrt (<) (map fst rs) \<Longrightarrow> length (filter (\<lambda>r. fst r = (i::int)) rs) \<le> 1"
proof (induction rs)
  case Nil
  then show ?case by simp
next
  case (Cons r rs)
  show ?case
  proof (cases "fst r = i")
    case True
    with Cons.prems have "\<forall>x\<in>set rs. fst x \<noteq> i" by auto
    then have "filter (\<lambda>r. fst r = i) rs = []" by (simp add: filter_empty_conv)
    with True show ?thesis by simp
  next
    case False
    with Cons show ?thesis by simp
  qed
qed

text \<open>
  Claim C10. After an update or a delete, with or without faults and whether or not the id
  was found, the rows whose id is not the id of the request are the same rows, in the same
  order, as before: a row with another id is in the table afterwards exactly when it was
  there before, with the same name and quantity. The counter is unchanged, and in a table
  that satisfies the key invariant at most one row has the id of the request.
\<close>

theorem other_records_untouched:
  assumes "lower (operation item) = ''update'' \<or> lower (operation item) = ''delete''"
  shows "filter (\<lambda>r. Some (fst r) \<noteq> item_id item)
           (rows (fst (snd (manageInventory env item d)))) =
         filter (\<lambda>r. Some (fst r) \<noteq> item_id item) (rows d) \<and>
         (\<forall>j n q. Some j \<noteq> item_id item \<longrightarrow>
            ((j, n, q) \<in> set (rows (fst (snd (manageInventory env item d)))) \<longleftrightarrow>
             (j, n, q) \<in> set (rows d))) \<and>
         seq (fst (snd (manageInventory env item d))) = seq d \<and>
         (wf_db d \<longrightarrow> length (filter (\<lambda>r. Some (fst r) = item_id item) (rows d)) \<le> 1)"
proof -
  let ?d' = "fst (snd (manageInventory env item d))"
  let ?P = "\<lambda>r::row. Some (fst r) \<noteq> item_id item"
  have a: "filter ?P (rows ?d') = filter ?P (rows d) \<and> seq ?d' = seq d"
    using assms update_branch_others [of item env d] delete_branch_others [of item env d]
    by (auto simp: manageInventory_db try_block_update try_block_delete split: option.splits)
  have b: "(j, n, q) \<in> set (rows ?d') \<longleftrightarrow> (j, n, q) \<in> set (rows d)"
    if "Some j \<noteq> item_id item" for j n q
  proof -
    have "(j, n, q) \<in> set (rows ?d') \<longleftrightarrow> (j, n, q) \<in> set (filter ?P (rows ?d'))"
      using that by simp
    also have "\<dots> \<longleftrightarrow> (j, n, q) \<in> set (filter ?P (rows d))"
      using a by simp
    also have "\<dots> \<longleftrightarrow> (j, n, q) \<in> set (rows d)"
      using that by simp
    finally show ?thesis .
  qed
  have c: "length (filter (\<lambda>r. Some (fst r) = item_id item) (rows d)) \<le> 1" if "wf_db d"
  proof (cases "item_id item")
    case None
    then show ?thesis by simp
  next
    case (Some i)
    from that have "length (filter (\<lambda>r. fst r = i) (rows d)) \<le> 1"
      unfolding wf_db_def by (rule one_row_per_id)
    with Some show ?thesis by simp
  qed
  from a b c show ?thesis by blast
qed

text \<open>
  C10 at the deletion of item 1 from a table of two rows.
\<close>

theorem other_records_untouched_witness:
  "lower (operation \<lparr>operation = ''Delete'', item_id = Some 1, name = None,
      quantity = None\<rparr>) = ''delete'' \<and>
   rows (fst (snd (manageInventory no_fault
     \<lparr>operation = ''Delete'', item_id = Some 1, name = None, quantity = None\<rparr>
     \<lparr>rows = [(1, ''Bolt'', 10), (2, ''Nut'', 4)], seq = 2\<rparr>))) = [(2, ''Nut'', 4)] \<and>
   filter (\<lambda>r. Some (fst r) \<noteq> Some 1) [(1, ''Bolt'', 10), (2, ''Nut'', 4 :: int)] =
     [(2 :: int, ''Nut'', 4)]"
proof -
  let ?item = "\<lparr>operation = ''Delete'', item_id = Some 1, name = None, quantity = None\<rparr>"
  let ?d = "\<lparr>rows = [(1, ''Bolt'', 10), (2, ''Nut'', 4)], seq = 2\<rparr>"
  have a: "lower (operation ?item) = ''delete''" by code_simp
  then have a': "lower (operation ?item) = ''update'' \<or> lower (operation ?item) = ''delete''" ..
  have r: "rows (fst (snd (manageInventory no_fault ?item ?d))) = [(2, ''Nut'', 4)]"
    by code_simp
  from other_records_untouched [OF a', of no_fault ?d] r a show ?thesis
    by simp
qed


section \<open>Round trips\<close>

lemma lower_add: "lower ''add'' = ''add''"
  by code_simp

lemma lower_update: "lower ''update'' = ''update''"
  by code_simp

lemma lower_delete: "lower ''delete'' = ''delete''"
  by code_simp

lemma no_match_iff: "length (filter (\<lambda>r. fst r = i) rs) = 0 \<longleftrightarrow> i \<notin> fst ` set rs"
  by (auto simp: filter_empty_conv)

lemma update_branch_ok:
  assumes "item_id item = Some i" and "name item = Some n" and "n \<noteq> []"
    and "quantity item = Some q" and "execute_fault env = None" and "commit_fault env = None"
    and "i \<in> fst ` set (rows d)"
  shows "update_branch env item d =
     (Inr (updated i n q), fst (sql_update n q i d), [Execute (Update n q i), Commit])"
  using assms no_match_iff [of i "rows d"]
  by (simp add: update_branch_def no_name_Some sql_update_def Let_def)

lemma delete_branch_ok:
  assumes "item_id item = Some i" and "execute_fault env = None" and "commit_fault env = None"
    and "i \<in> fst ` set (rows d)"
  shows "delete_branch env item d =
     (Inr (deleted i), fst (sql_delete i d), [Execute (Delete i), Commit])"
  using assms no_match_iff [of i "rows d"]
  by (simp add: delete_branch_def sql_delete_def Let_def)

lemma matching_after_update:
  "filter (\<lambda>r. fst r = i) (map (\<lambda>r. if fst r = i then (i, n, q) else r) rs) =
   map (\<lambda>r. (i, n, q)) (filter (\<lambda>r. fst r = i) rs)"
  by (induction rs) auto

lemma matching_after_delete:
  "filter (\<lambda>r. fst r = i) (filter (\<lambda>r. fst r \<noteq> i) rs) = []"
  by (induction rs) auto

lemma matching_new_row:
  "filter (\<lambda>r. fst r = next_rowid d) (rows d) = []"
  using next_rowid_above_rows [of _ d] by (fastforce simp: filter_empty_conv)

text \<open>
  Claim C8. On any store, the new store of \<^verbatim>\<open>init_db\<close> included, and with a store that
  raises nothing: adding \<^verbatim>\<open>Widget\<close> with quantity 5 reports the id the store assigned,
  and the rows of that id among those \<^verbatim>\<open>fetch_inventory\<close> returns are the one row of
  that id, \<^verbatim>\<open>Widget\<close> and 5; updating that id to \<^verbatim>\<open>Widget\<close> and 9 leaves the one row of
  that id, \<^verbatim>\<open>Widget\<close> and 9; deleting that id leaves no row of that id.
\<close>

theorem round_trip:
  assumes "manageInventory no_fault
             \<lparr>operation = ''add'', item_id = None, name = Some ''Widget'', quantity = Some 5\<rparr> d =
             (r1, d1, t1)"
    and "manageInventory no_fault
             \<lparr>operation = ''update'', item_id = Some (next_rowid d), name = Some ''Widget'',
              quantity = Some 9\<rparr> d1 = (r2, d2, t2)"
    and "manageInventory no_fault
             \<lparr>operation = ''delete'', item_id = Some (next_rowid d), name = None,
              quantity = None\<rparr> d2 = (r3, d3, t3)"
  shows "r1 = Returned (''Added Widget with ID '' @ str_int (next_rowid d) @ '' and quantity 5.'') \<and>
         filter (\<lambda>r. fst r = next_rowid d) (fetch_inventory d1) = [(next_rowid d, ''Widget'', 5)] \<and>
         r2 = Returned (''Updated item ID '' @ str_int (next_rowid d) @
                        '' to Widget with quantity 9.'') \<and>
         filter (\<lambda>r. fst r = next_rowid d) (fetch_inventory d2) = [(next_rowid d, ''Widget'', 9)] \<and>
         r3 = Returned (''Deleted item ID '' @ str_int (next_rowid d) @ ''.'') \<and>
         filter (\<lambda>r. fst r = next_rowid d) (fetch_inventory d3) = []"
proof -
  let ?i = "next_rowid d"
  have nf: "connect_fault no_fault = None" "execute_fault no_fault = None"
    "commit_fault no_fault = None"
    by (simp_all add: no_fault_def)
  have s5: "str_int 5 = ''5''" by code_simp
  have s9: "str_int 9 = ''9''" by code_simp
  from assms(1) have 1: "r1 = Returned (added ''Widget'' ?i 5)"
    "d1 = \<lparr>rows = rows d @ [(?i, ''Widget'', 5)], seq = ?i\<rparr>"
    by (simp_all add: manageInventory_connected nf lower_add try_block_add add_branch_ok)
  from 1(2) have in1: "?i \<in> fst ` set (rows d1)" by simp
  from 1(2) have f1: "filter (\<lambda>r. fst r = ?i) (rows d1) = [(?i, ''Widget'', 5)]"
    by (simp add: matching_new_row)
  from assms(2) in1 have 2: "r2 = Returned (updated ?i ''Widget'' 9)"
    "d2 = fst (sql_update ''Widget'' 9 ?i d1)"
    by (simp_all add: manageInventory_connected nf lower_update try_block_update update_branch_ok)
  from 2(2) f1 have f2: "filter (\<lambda>r. fst r = ?i) (rows d2) = [(?i, ''Widget'', 9)]"
    by (simp add: sql_update_def matching_after_update)
  then have "(?i, ''Widget'', 9) \<in> set (filter (\<lambda>r. fst r = ?i) (rows d2))"
    by simp
  then have in2: "?i \<in> fst ` set (rows d2)"
    by force
  from assms(3) in2 have 3: "r3 = Returned (deleted ?i)" "d3 = fst (sql_delete ?i d2)"
    by (simp_all add: manageInventory_connected nf lower_delete try_block_delete delete_branch_ok)
  from 3(2) have f3: "filter (\<lambda>r. fst r = ?i) (rows d3) = []"
    by (simp add: sql_delete_def matching_after_delete)
  from 1(1) 2(1) 3(1) f1 f2 f3 show ?thesis
    by (simp add: fetch_inventory_def added_def updated_def deleted_def s5 s9)
qed

text \<open>
  C8 on the new store, where the id is 1.
\<close>

theorem round_trip_witness:
  "manageInventory no_fault
     \<lparr>operation = ''add'', item_id = None, name = Some ''Widget'', quantity = Some 5\<rparr> init_db =
     (Returned ''Added Widget with ID 1 and quantity 5.'',
      \<lparr>rows = [(1, ''Widget'', 5)], seq = 1\<rparr>,
      [Connect, Execute (Insert ''Widget'' 5), Commit, Close]) \<and>
   manageInventory no_fault
     \<lparr>operation = ''update'', item_id = Some 1, name = Some ''Widget'', quantity = Some 9\<rparr>
     \<lparr>rows = [(1, ''Widget'', 5)], seq = 1\<rparr> =
     (Returned ''Updated item ID 1 to Widget with quantity 9.'',
      \<lparr>rows = [(1, ''Widget'', 9)], seq = 1\<rparr>,
      [Connect, Execute (Update ''Widget'' 9 1), Commit, Close]) \<and>
   manageInventory no_fault
     \<lparr>operation = ''delete'', item_id = Some 1, name = None, quantity = None\<rparr>
     \<lparr>rows = [(1, ''Widget'', 9)], seq = 1\<rparr> =
     (Returned ''Deleted item ID 1.'', \<lparr>rows = [], seq = 1\<rparr>,
      [Connect, Execute (Delete 1), Commit, Close]) \<and>
   filter (\<lambda>r. fst r = 1) (fetch_inventory \<lparr>rows = [(1, ''Widget'', 5)], seq = 1\<rparr>) =
     [(1, ''Widget'', 5)] \<and>
   filter (\<lambda>r. fst r = 1) (fetch_inventory \<lparr>rows = [(1, ''Widget'', 9)], seq = 1\<rparr>) =
     [(1, ''Widget'', 9)] \<and>
   filter (\<lambda>r. fst r = 1) (fetch_inventory \<lparr>rows = [], seq = 1\<rparr>) = []"
proof -
  have n: "next_rowid init_db = 1" by code_simp
  have a: "manageInventory no_fault
     \<lparr>operation = ''add'', item_id = None, name = Some ''Widget'', quantity = Some 5\<rparr> init_db =
     (Returned ''Added Widget with ID 1 and quantity 5.'',
      \<lparr>rows = [(1, ''Widget'', 5)], seq = 1\<rparr>,
      [Connect, Execute (Insert ''Widget'' 5), Commit, Close])"
    by code_simp
  have b: "manageInventory no_fault
     \<lparr>operation = ''update'', item_id = Some (next_rowid init_db), name = Some ''Widget'',
      quantity = Some 9\<rparr>
     \<lparr>rows = [(1, ''Widget'', 5)], seq = 1\<rparr> =
     (Returned ''Updated item ID 1 to Widget with quantity 9.'',
      \<lparr>rows = [(1, ''Widget'', 9)], seq = 1\<rparr>,
      [Connect, Execute (Update ''Widget'' 9 1), Commit, Close])"
    by code_simp
  have c: "manageInventory no_fault
     \<lparr>operation = ''delete'', item_id = Some (next_rowid init_db), name = None, quantity = None\<rparr>
     \<lparr>rows = [(1, ''Widget'', 9)], seq = 1\<rparr> =
     (Returned ''Deleted item ID 1.'', \<lparr>rows = [], seq = 1\<rparr>,
      [Connect, Execute (Delete 1), Commit, Close])"
    by code_simp
  from round_trip [OF a b c] a b c show ?thesis
    by (simp add: n)
qed

section \<open>Ids of new records\<close>

lemma fold_max_fixed: "\<forall>x\<in>set xs. x \<le> s \<Longrightarrow> fold max xs (s::int) = s"
  by (induction xs) (auto simp: max_def)

lemma next_rowid_after_insert:
  "next_rowid \<lparr>rows = rows d @ [(next_rowid d, n, q)], seq = next_rowid d\<rparr> = next_rowid d + 1"
proof -
  have "\<forall>x\<in>set (map fst (rows d)). x \<le> next_rowid d"
    using next_rowid_above_rows [of _ d] by fastforce
  then have "fold max (map fst (rows d)) (next_rowid d) = next_rowid d"
    by (rule fold_max_fixed)
  then show ?thesis
    by (simp add: next_rowid_def [of "\<lparr>rows = rows d @ [(next_rowid d, n, q)], seq = next_rowid d\<rparr>"])
qed

lemma seq_manageInventory: "seq d \<le> seq (fst (snd (manageInventory env item d)))"
proof -
  have "seq d \<le> seq (fst (snd (add_branch env item d)))"
    using add_branch_db [of env item d] next_rowid_above_seq [of d]
    by (auto simp: sql_insert_def Let_def)
  moreover have "seq d \<le> seq (fst (snd (update_branch env item d)))"
    using update_branch_db [of env item d] by (auto simp: sql_update_def)
  moreover have "seq d \<le> seq (fst (snd (delete_branch env item d)))"
    using delete_branch_db [of env item d] by (auto simp: sql_delete_def)
  ultimately show ?thesis
    by (simp add: manageInventory_db try_block_def split: option.splits)
qed

lemma seq_run_calls: "seq d \<le> seq (snd (run_calls d cs))"
proof (induction cs arbitrary: d)
  case Nil
  show ?case by simp
next
  case (Cons c cs)
  have "seq d \<le> seq (fst (snd (manageInventory (fst c) (snd c) d)))"
    by (rule seq_manageInventory)
  also have "\<dots> \<le> seq (snd (run_calls (fst (snd (manageInventory (fst c) (snd c) d))) cs))"
    by (rule Cons.IH)
  finally show ?case by (auto split: prod.splits)
qed

lemma run_adds:
  assumes "\<forall>(n, q)\<in>set items. n \<noteq> []"
  shows "run_calls d
           (map (\<lambda>(n, q). (no_fault,
              \<lparr>operation = ''add'', item_id = None, name = Some n, quantity = Some q\<rparr>)) items) =
         (map (\<lambda>(i, n, q). Returned (added n i q))
            (zip [next_rowid d .. next_rowid d + int (length items) - 1] items),
          if items = [] then d
          else \<lparr>rows = rows d @ zip [next_rowid d .. next_rowid d + int (length items) - 1] items,
                seq = next_rowid d + int (length items) - 1\<rparr>)"
  using assms
proof (induction items arbitrary: d)
  case Nil
  show ?case by simp
next
  case (Cons x xs)
  obtain n q where x: "x = (n, q)" by (cases x)
  let ?d1 = "\<lparr>rows = rows d @ [(next_rowid d, n, q)], seq = next_rowid d\<rparr>"
  have nf: "connect_fault no_fault = None" "execute_fault no_fault = None"
    "commit_fault no_fault = None"
    by (simp_all add: no_fault_def)
  from Cons.prems x have n: "n \<noteq> []" by simp
  have step: "manageInventory no_fault
      \<lparr>operation = ''add'', item_id = None, name = Some n, quantity = Some q\<rparr> d =
      (Returned (added n (next_rowid d) q), ?d1, [Connect, Execute (Insert n q), Commit, Close])"
    using n by (simp add: manageInventory_connected nf lower_add try_block_add add_branch_ok)
  from Cons.prems have "\<forall>(n, q)\<in>set xs. n \<noteq> []" by simp
  note ih = Cons.IH [OF this, of ?d1, unfolded next_rowid_after_insert]
  have up: "[next_rowid d .. next_rowid d + int (length (x # xs)) - 1] =
      next_rowid d # [next_rowid d + 1 .. next_rowid d + 1 + int (length xs) - 1]"
    by (simp add: upto_rec1)
  show ?case
    unfolding up using step ih x by (cases "xs = []") simp_all
qed

text \<open>
  Claim C7. Let \<open>N\<close> additions with names that are not empty run one after the other on
  any store, the store library raising nothing. The ids they report are the \<open>N\<close>
  consecutive integers from the next id of the store on: strictly increasing and distinct,
  each above the counter and the id of no row that was there before. Each id is in the
  table afterwards with its name and quantity, as \<^verbatim>\<open>fetch_inventory\<close> returns it. And
  whatever calls \<open>cs\<close> follow, deletions and faults included, the next id the store would
  hand out stays above all of them: an id is never given out twice.
\<close>

theorem creates_increasing_ids:
  assumes "\<forall>(n, q)\<in>set items. n \<noteq> []"
  shows "(let ids = [next_rowid d .. next_rowid d + int (length items) - 1];
              out = run_calls d
                (map (\<lambda>(n, q). (no_fault,
                   \<lparr>operation = ''add'', item_id = None, name = Some n, quantity = Some q\<rparr>)) items)
          in fst out =
               map (\<lambda>(i, n, q). Returned (''Added '' @ n @ '' with ID '' @ str_int i @
                                           '' and quantity '' @ str_int q @ ''.''))
                 (zip ids items) \<and>
             length ids = length items \<and> sorted_wrt (<) ids \<and> distinct ids \<and>
             (\<forall>i\<in>set ids. seq d < i \<and> i \<notin> fst ` set (rows d)) \<and>
             fetch_inventory (snd out) = rows d @ zip ids items \<and>
             set (zip ids items) \<subseteq> set (fetch_inventory (snd out)) \<and>
             (\<forall>i\<in>set ids. i < next_rowid (snd (run_calls (snd out) cs))))"
proof -
  let ?ids = "[next_rowid d .. next_rowid d + int (length items) - 1]"
  let ?out = "run_calls d
                (map (\<lambda>(n, q). (no_fault,
                   \<lparr>operation = ''add'', item_id = None, name = Some n, quantity = Some q\<rparr>)) items)"
  note run = run_adds [OF assms, of d]
  have res: "fst ?out =
      map (\<lambda>(i, n, q). Returned (''Added '' @ n @ '' with ID '' @ str_int i @
                                  '' and quantity '' @ str_int q @ ''.'')) (zip ?ids items)"
    by (simp add: run added_def)
  have len: "length ?ids = length items" by simp
  have srt: "sorted_wrt (<) ?ids \<and> distinct ?ids"
    by (simp add: strict_sorted_iff)
  have new: "\<forall>i\<in>set ?ids. seq d < i \<and> i \<notin> fst ` set (rows d)"
  proof
    fix i
    assume "i \<in> set ?ids"
    then have "next_rowid d \<le> i" by simp
    then show "seq d < i \<and> i \<notin> fst ` set (rows d)"
      using next_rowid_above_seq [of d] next_rowid_above_rows [of _ d] by fastforce
  qed
  have tab: "fetch_inventory (snd ?out) = rows d @ zip ?ids items"
    by (simp add: run fetch_inventory_def)
  then have sub: "set (zip ?ids items) \<subseteq> set (fetch_inventory (snd ?out))"
    by simp
  have later: "\<forall>i\<in>set ?ids. i < next_rowid (snd (run_calls (snd ?out) cs))"
  proof
    fix i
    assume i: "i \<in> set ?ids"
    then have "items \<noteq> []" by auto
    with run have "seq (snd ?out) = next_rowid d + int (length items) - 1" by simp
    with i have "i \<le> seq (snd ?out)" by simp
    also have "\<dots> \<le> seq (snd (run_calls (snd ?out) cs))" by (rule seq_run_calls)
    also have "\<dots> < next_rowid (snd (run_calls (snd ?out) cs))" by (rule next_rowid_above_seq)
    finally show "i < next_rowid (snd (run_calls (snd ?out) cs))" .
  qed
  from res len srt new tab sub later show ?thesis
    unfolding Let_def by blast
qed

text \<open>
  C7 at two additions to the new store.
\<close>

theorem creates_increasing_ids_witness:
  "''Bolt'' \<noteq> [] \<and> ''Nut'' \<noteq> [] \<and>
   [next_rowid init_db .. next_rowid init_db + int (length [(''Bolt'', 10 :: int), (''Nut'', 4)]) - 1] =
     [1, 2] \<and>
   fst (run_calls init_db
     [(no_fault, \<lparr>operation = ''add'', item_id = None, name = Some ''Bolt'', quantity = Some 10\<rparr>),
      (no_fault, \<lparr>operation = ''add'', item_id = None, name = Some ''Nut'', quantity = Some 4\<rparr>)]) =
     [Returned ''Added Bolt with ID 1 and quantity 10.'',
      Returned ''Added Nut with ID 2 and quantity 4.''] \<and>
   fetch_inventory (snd (run_calls init_db
     [(no_fault, \<lparr>operation = ''add'', item_id = None, name = Some ''Bolt'', quantity = Some 10\<rparr>),
      (no_fault, \<lparr>operation = ''add'', item_id = None, name = Some ''Nut'', quantity = Some 4\<rparr>)])) =
     [(1, ''Bolt'', 10), (2, ''Nut'', 4)]"
proof -
  let ?items = "[(''Bolt'', 10 :: int), (''Nut'', 4)]"
  have a: "\<forall>(n, q)\<in>set ?items. n \<noteq> []" by simp
  have ids: "[next_rowid init_db .. next_rowid init_db + int (length ?items) - 1] = [1, 2]"
    by code_simp
  have r: "rows init_db = []" by (simp add: init_db_def)
  have s: "str_int 1 = ''1''" "str_int 2 = ''2''" "str_int 10 = ''10''" "str_int 4 = ''4''"
    by code_simp+
  from creates_increasing_ids [OF a, of init_db "[]"] ids show ?thesis
    unfolding Let_def by (simp add: r s)
qed

end
